theory Spec2Isabelle
  imports Complex_Main "HOL-Library.Sublist"
begin

section \<open>The database reset script (backend/database/reset_db.py)\<close>

text \<open>
  The script talks to four collaborators whose code lives outside the script: the
  \<open>DataAPIClient\<close> (\<open>db.execute\<close>, \<open>db.query\<close>), the \<open>Database\<close> model layer
  (\<open>db_models.users\<close>, \<open>.accounts\<close>, \<open>.positions\<close>), the Pydantic schemas
  (\<open>UserCreate\<close>, \<open>AccountCreate\<close>, \<open>PositionCreate\<close>) and \<open>subprocess.run\<close>.
  They are parameters of the model: every call takes the state \<open>'d\<close> of the persistent
  store, returns the next state, and either returns a value or raises.  The three
  functions of the script, \<open>drop_all_tables\<close>, \<open>create_test_data\<close> and \<open>main\<close>, are
  translated statement by statement over these parameters.

  What the model takes as given: \<open>main\<close> starts after \<open>parse_args\<close> has returned and the
  two collaborator objects have been constructed; \<open>print\<close> itself does not raise; and
  the only exceptions are those a collaborator raises, the \<open>KeyError\<close> of a missing
  column, and the \<open>SystemExit\<close> of \<open>sys.exit\<close>.  A lookup of the model layer returns a
  row or nothing (\<open>find_by_clerk_id\<close>) or a list of rows, so that Python's truth test
  on the result is the test for a row, or for a non-empty list.
\<close>

subsection \<open>Values\<close>

text \<open>
  \<open>Decimal\<close> literals are exact, so they are rationals.  Account identifiers are generated
  by the store; only their identity matters and they are numbered.
\<close>

type_synonym decimal = rat
type_synonym account_id = nat

text \<open>The keyword arguments of the three schema constructors, which are also the fields
  that \<open>model_dump()\<close> hands back.\<close>

record user_fields =
  clerk_user_id :: string
  display_name :: string
  years_until_retirement :: int
  target_retirement_income :: decimal

record account_fields =
  account_name :: string
  account_purpose :: string
  cash_balance :: decimal
  cash_interest :: decimal

record position_fields =
  account_id :: account_id
  symbol :: string
  quantity :: decimal

text \<open>A row of \<open>accounts.find_by_user\<close>: the script reads \<open>acc['id']\<close> only.\<close>

record account_row = account_fields +
  acc_id :: account_id
  acc_owner :: string

text \<open>A row of \<open>db.query\<close> is a dictionary from column names to numbers.\<close>

type_synonym row = "(string \<times> int) list"

text \<open>\<open>subprocess.run(..., capture_output=True, text=True)\<close> returns a completed process.\<close>

record completed =
  returncode :: int
  stdout :: string
  stderr :: string

text \<open>The parsed command line.\<close>

record args =
  with_test_data :: bool
  skip_drop :: bool

subsection \<open>Exceptions, calls and the world\<close>

text \<open>
  A collaborator either returns (\<open>Inr\<close>) or raises an ordinary exception, of which the
  script only ever reads the message (\<open>Inl\<close>).  \<open>sys.exit\<close> raises \<open>SystemExit\<close>, which
  \<open>except Exception\<close> does not catch.
\<close>

type_synonym 'a outcome = "string + 'a"

datatype exn = Exception string | SystemExit int

text \<open>Every call to a collaborator is recorded with its arguments and its outcome.\<close>

datatype event =
    Execute string "unit outcome"
  | Query string "row list outcome"
  | Run "string list" "completed outcome"
  | FindByClerkId string "user_fields option outcome"
  | CreateUser user_fields "unit outcome"
  | FindByUser string "account_row list outcome"
  | CreateAccount string account_fields "account_id outcome"
  | FindByAccount account_id "position_fields list outcome"
  | AddPosition account_id string decimal "unit outcome"

text \<open>
  What the script prints, one constructor for each \<open>print\<close> statement (the texts carry
  emoji and are printed as byte strings; only which line is printed matters here).
\<close>

datatype console =
    Dropping_tables
  | Dropped string
  | Error_dropping string string
  | Dropped_function
  | Error_dropping_function string
  | Creating_test_user
  | User_exists
  | Created_user
  | User_has_accounts nat
  | Created_account string
  | Account_has_positions nat
  | Added_position decimal string
  | Banner
  | Rule
  | Running_migrations
  | Migration_failed
  | Migrations_completed
  | Loading_seed_data
  | Seed_failed
  | Printed string
  | Loaded_22_instruments
  | Seed_data_loaded
  | Final_verification
  | Count string int
  | Reset_complete
  | Summary_header
  | Summary_user
  | Summary_accounts
  | Summary_positions

record 'd world =
  db :: 'd
  out :: "console list"
  calls :: "event list"

text \<open>The collaborators.\<close>

record 'd DataAPIClient =
  execute :: "string \<Rightarrow> 'd \<Rightarrow> unit outcome \<times> 'd"
  query :: "string \<Rightarrow> 'd \<Rightarrow> row list outcome \<times> 'd"

record 'd Database =
  find_by_clerk_id :: "string \<Rightarrow> 'd \<Rightarrow> user_fields option outcome \<times> 'd"
  create_user :: "user_fields \<Rightarrow> 'd \<Rightarrow> unit outcome \<times> 'd"
  find_by_user :: "string \<Rightarrow> 'd \<Rightarrow> account_row list outcome \<times> 'd"
  create_account :: "string \<Rightarrow> account_fields \<Rightarrow> 'd \<Rightarrow> account_id outcome \<times> 'd"
  find_by_account :: "account_id \<Rightarrow> 'd \<Rightarrow> position_fields list outcome \<times> 'd"
  add_position :: "account_id \<Rightarrow> string \<Rightarrow> decimal \<Rightarrow> 'd \<Rightarrow> unit outcome \<times> 'd"

text \<open>
  A schema constructor validates its arguments: \<open>None\<close> when it accepts them, the message
  of the \<open>ValidationError\<close> otherwise.  The fields it was given are the fields it dumps.
\<close>

record schemas =
  UserCreate :: "user_fields \<Rightarrow> string option"
  AccountCreate :: "account_fields \<Rightarrow> string option"
  PositionCreate :: "position_fields \<Rightarrow> string option"

record 'd env =
  client :: "'d DataAPIClient"
  models :: "'d Database"
  schema :: schemas
  subprocess_run :: "string list \<Rightarrow> 'd \<Rightarrow> completed outcome \<times> 'd"

subsection \<open>Statements\<close>

type_synonym ('d, 'a) prog = "'d world \<Rightarrow> (exn + 'a) \<times> 'd world"

definition return :: "'a \<Rightarrow> ('d, 'a) prog" where
  "return x = (\<lambda>w. (Inr x, w))"

definition raise :: "exn \<Rightarrow> ('d, 'a) prog" where
  "raise e = (\<lambda>w. (Inl e, w))"

definition bind :: "('d, 'a) prog \<Rightarrow> ('a \<Rightarrow> ('d, 'b) prog) \<Rightarrow> ('d, 'b) prog" where
  "bind m f = (\<lambda>w. case m w of (Inl e, w') \<Rightarrow> (Inl e, w') | (Inr x, w') \<Rightarrow> f x w')"

text \<open>A block of statements runs them in order and stops at the first that raises.\<close>

fun block :: "('d, unit) prog list \<Rightarrow> ('d, unit) prog" where
  "block [] = return ()"
| "block (m # ms) = bind m (\<lambda>_. block ms)"

text \<open>\<open>for x in xs: body\<close>.\<close>

fun for_each :: "('a \<Rightarrow> ('d, unit) prog) \<Rightarrow> 'a list \<Rightarrow> ('d, unit) prog" where
  "for_each body [] = return ()"
| "for_each body (x # xs) = bind (body x) (\<lambda>_. for_each body xs)"

text \<open>\<open>try: m  except Exception as e: h e\<close>.\<close>

definition try_except :: "('d, 'a) prog \<Rightarrow> (string \<Rightarrow> ('d, 'a) prog) \<Rightarrow> ('d, 'a) prog" where
  "try_except m h =
     (\<lambda>w. case m w of (Inl (Exception e), w') \<Rightarrow> h e w' | r \<Rightarrow> r)"

definition print :: "console \<Rightarrow> ('d, unit) prog" where
  "print l = (\<lambda>w. (Inr (), w\<lparr>out := out w @ [l]\<rparr>))"

definition sys_exit :: "int \<Rightarrow> ('d, 'a) prog" where
  "sys_exit n = raise (SystemExit n)"

text \<open>A call to a collaborator: the store moves on, the call is recorded, and a failure
  becomes an exception of the script.\<close>

definition call :: "('a outcome \<Rightarrow> event) \<Rightarrow> ('d \<Rightarrow> 'a outcome \<times> 'd) \<Rightarrow> ('d, 'a) prog" where
  "call ev f =
     (\<lambda>w. case f (db w) of
        (r, d') \<Rightarrow>
          (case r of Inl e \<Rightarrow> Inl (Exception e) | Inr x \<Rightarrow> Inr x,
           w\<lparr>db := d', calls := calls w @ [ev r]\<rparr>))"

text \<open>Constructing a schema object and dumping it.\<close>

definition construct :: "('a \<Rightarrow> string option) \<Rightarrow> 'a \<Rightarrow> ('d, 'a) prog" where
  "construct check x = (case check x of None \<Rightarrow> return x | Some e \<Rightarrow> raise (Exception e))"

text \<open>The exit status of the interpreter: an uncaught exception ends it with status 1.\<close>

fun exit_code :: "exn + unit \<Rightarrow> int" where
  "exit_code (Inr _) = 0"
| "exit_code (Inl (SystemExit n)) = n"
| "exit_code (Inl (Exception _)) = 1"

subsection \<open>\<open>drop_all_tables\<close> (lines 16--41)\<close>

definition tables_to_drop :: "string list" where
  "tables_to_drop = [''positions'', ''accounts'', ''jobs'', ''instruments'', ''users'']"

definition drop_table_sql :: "string \<Rightarrow> string" where
  "drop_table_sql table = ''DROP TABLE IF EXISTS '' @ table @ '' CASCADE''"

definition drop_function_sql :: string where
  "drop_function_sql = ''DROP FUNCTION IF EXISTS update_updated_at_column() CASCADE''"

definition drop_all_tables :: "'d DataAPIClient \<Rightarrow> ('d, unit) prog" where
  "drop_all_tables db_client =
     block [
       print Dropping_tables,
       for_each (\<lambda>table.
           try_except
             (block [
                call (Execute (drop_table_sql table)) (execute db_client (drop_table_sql table)),
                print (Dropped table)])
             (\<lambda>e. print (Error_dropping table e)))
         tables_to_drop,
       try_except
         (block [
            call (Execute drop_function_sql) (execute db_client drop_function_sql),
            print Dropped_function])
         (\<lambda>e. print (Error_dropping_function e))]"

subsection \<open>\<open>create_test_data\<close> (lines 44--141)\<close>

definition test_user :: string where
  "test_user = ''test_user_001''"

definition user_data :: user_fields where
  "user_data =
     \<lparr>clerk_user_id = ''test_user_001'',
      display_name = ''Test User'',
      years_until_retirement = 25,
      target_retirement_income = 100000\<rparr>"

definition accounts :: "account_fields list" where
  "accounts =
     [\<lparr>account_name = ''401(k)'',
       account_purpose = ''Primary retirement savings'',
       cash_balance = 5000,
       cash_interest = 45 / 1000\<rparr>,
      \<lparr>account_name = ''Roth IRA'',
       account_purpose = ''Tax-free retirement savings'',
       cash_balance = 1000,
       cash_interest = 4 / 100\<rparr>,
      \<lparr>account_name = ''Taxable Brokerage'',
       account_purpose = ''General investment account'',
       cash_balance = 2500,
       cash_interest = 35 / 1000\<rparr>]"

definition positions :: "(string \<times> decimal) list" where
  "positions = [(''SPY'', 100), (''QQQ'', 50), (''BND'', 200), (''VEA'', 150), (''GLD'', 25)]"

text \<open>Lines 49--69: the test user is validated, looked up, and created when the lookup
  finds nothing.\<close>

definition user_step :: "schemas \<Rightarrow> 'd Database \<Rightarrow> ('d, unit) prog" where
  "user_step sch db_models =
     bind (construct (UserCreate sch) user_data) (\<lambda>validated.
     bind (call (FindByClerkId test_user) (find_by_clerk_id db_models test_user)) (\<lambda>existing.
       if existing \<noteq> None then print User_exists
       else block [
         call (CreateUser validated) (create_user db_models validated),
         print Created_user]))"

text \<open>Lines 99--110: the loop that creates the accounts and collects their identifiers.\<close>

fun create_accounts ::
  "'d Database \<Rightarrow> account_fields list \<Rightarrow> account_id list \<Rightarrow> ('d, account_id list) prog" where
  "create_accounts db_models [] account_ids = return account_ids"
| "create_accounts db_models (acc_data # rest) account_ids =
     bind (call (CreateAccount test_user acc_data) (create_account db_models test_user acc_data))
       (\<lambda>acc_id.
     bind (print (Created_account (account_name acc_data))) (\<lambda>_.
       create_accounts db_models rest (account_ids @ [acc_id])))"

text \<open>Lines 72--110: the three accounts are validated, the user's accounts are looked up,
  and the three are created when the lookup returns an empty list.  The result is
  \<open>account_ids\<close>.\<close>

definition account_step :: "schemas \<Rightarrow> 'd Database \<Rightarrow> ('d, account_id list) prog" where
  "account_step sch db_models =
     bind (for_each (\<lambda>a. bind (construct (AccountCreate sch) a) (\<lambda>_. return ())) accounts) (\<lambda>_.
     bind (call (FindByUser test_user) (find_by_user db_models test_user)) (\<lambda>user_accounts.
       if user_accounts \<noteq> [] then
         bind (print (User_has_accounts (length user_accounts))) (\<lambda>_.
           return (map acc_id user_accounts))
       else create_accounts db_models accounts []))"

text \<open>Lines 128--141: the loop that validates and inserts the positions of one account.\<close>

definition add_positions ::
  "schemas \<Rightarrow> 'd Database \<Rightarrow> account_id \<Rightarrow> (string \<times> decimal) list \<Rightarrow> ('d, unit) prog" where
  "add_positions sch db_models account ps =
     for_each (\<lambda>(symbol, quantity).
         bind (construct (PositionCreate sch)
                 \<lparr>account_id = account, symbol = symbol, quantity = quantity\<rparr>)
           (\<lambda>validated.
         block [
           call (AddPosition (position_fields.account_id validated)
                   (position_fields.symbol validated) (position_fields.quantity validated))
             (add_position db_models (position_fields.account_id validated)
                (position_fields.symbol validated) (position_fields.quantity validated)),
           print (Added_position quantity symbol)]))
       ps"

text \<open>Lines 113--141: the positions of the first account.  \<open>account_ids[0]\<close> is read under
  the guard \<open>if account_ids\<close>, so it is the head of a non-empty list.\<close>

definition position_step :: "schemas \<Rightarrow> 'd Database \<Rightarrow> account_id list \<Rightarrow> ('d, unit) prog" where
  "position_step sch db_models account_ids =
     (if account_ids \<noteq> [] then
        let account_id = hd account_ids in
        bind (call (FindByAccount account_id) (find_by_account db_models account_id))
          (\<lambda>existing_positions.
            if existing_positions \<noteq> [] then
              print (Account_has_positions (length existing_positions))
            else add_positions sch db_models account_id positions)
      else return ())"

definition create_test_data :: "schemas \<Rightarrow> 'd Database \<Rightarrow> ('d, unit) prog" where
  "create_test_data sch db_models =
     block [
       print Creating_test_user,
       user_step sch db_models,
       bind (account_step sch db_models) (position_step sch db_models)]"

subsection \<open>\<open>main\<close> (lines 144--214)\<close>

definition migrations_command :: "string list" where
  "migrations_command = [''uv'', ''run'', ''run_migrations.py'']"

definition seed_command :: "string list" where
  "seed_command = [''uv'', ''run'', ''seed_data.py'']"

definition sentinel :: string where
  "sentinel = ''22/22 instruments loaded''"

definition count_sql :: "string \<Rightarrow> string" where
  "count_sql table = ''SELECT COUNT(*) as count FROM '' @ table"

definition tables :: "string list" where
  "tables = [''users'', ''instruments'', ''accounts'', ''positions'', ''jobs'']"

text \<open>Lines 163--174: the migration subprocess.\<close>

definition run_migrations :: "'d env \<Rightarrow> ('d, unit) prog" where
  "run_migrations e =
     block [
       print Running_migrations,
       bind (call (Run migrations_command) (subprocess_run e migrations_command)) (\<lambda>result.
         if returncode result \<noteq> 0 then
           block [print Migration_failed, print (Printed (stderr result)), sys_exit 1]
         else print Migrations_completed)]"

text \<open>Lines 176--191: the seed subprocess and the scan of its output.\<close>

definition load_seed_data :: "'d env \<Rightarrow> ('d, unit) prog" where
  "load_seed_data e =
     block [
       print Loading_seed_data,
       bind (call (Run seed_command) (subprocess_run e seed_command)) (\<lambda>result.
         if returncode result \<noteq> 0 then
           block [print Seed_failed, print (Printed (stderr result)), sys_exit 1]
         else if sublist sentinel (stdout result) then print Loaded_22_instruments
         else print Seed_data_loaded)]"

text \<open>Lines 203--205: the count of one table.  \<open>result[0]['count']\<close> raises \<open>KeyError\<close>
  when the first row has no such column.\<close>

definition count_records :: "'d DataAPIClient \<Rightarrow> string \<Rightarrow> ('d, unit) prog" where
  "count_records db_client table =
     bind (call (Query (count_sql table)) (query db_client (count_sql table))) (\<lambda>result.
     bind (case result of
             [] \<Rightarrow> return 0
           | r # _ \<Rightarrow>
               (case map_of r ''count'' of
                  Some n \<Rightarrow> return n
                | None \<Rightarrow> raise (Exception ''KeyError'')))
       (\<lambda>count. print (Count table count)))"

text \<open>Lines 197--205: the final counts.\<close>

definition final_verification :: "'d DataAPIClient \<Rightarrow> ('d, unit) prog" where
  "final_verification db_client =
     block [print Final_verification, for_each (count_records db_client) tables]"

text \<open>Lines 193--214: what \<open>main\<close> does after the seed step.\<close>

definition after_seed :: "'d env \<Rightarrow> args \<Rightarrow> ('d, unit) prog" where
  "after_seed e args =
     block [
       if with_test_data args then create_test_data (schema e) (models e) else return (),
       final_verification (client e),
       print Rule,
       print Reset_complete,
       if with_test_data args then
         block [print Summary_header, print Summary_user, print Summary_accounts,
                print Summary_positions]
       else return ()]"

text \<open>\<open>main\<close>, given the parsed arguments and the constructed collaborators.\<close>

definition main :: "'d env \<Rightarrow> args \<Rightarrow> ('d, unit) prog" where
  "main e args =
     block [
       print Banner,
       print Rule,
       if \<not> skip_drop args then
         block [drop_all_tables (client e), run_migrations e]
       else return (),
       load_seed_data e,
       after_seed e args]"

subsection \<open>Reading the record of calls\<close>

text \<open>The line \<open>drop_all_tables\<close> prints for the outcome of a drop.\<close>

definition report_table :: "string \<Rightarrow> unit outcome \<Rightarrow> console" where
  "report_table table r = (case r of Inl e \<Rightarrow> Error_dropping table e | Inr _ \<Rightarrow> Dropped table)"

definition report_function :: "unit outcome \<Rightarrow> console" where
  "report_function r =
     (case r of Inl e \<Rightarrow> Error_dropping_function e | Inr _ \<Rightarrow> Dropped_function)"

text \<open>\<open>emits P m\<close>: whatever the world, the calls that \<open>m\<close> adds to the record all satisfy
  \<open>P\<close>, and \<open>m\<close> removes none.\<close>

definition emits :: "(event \<Rightarrow> bool) \<Rightarrow> ('d, 'a) prog \<Rightarrow> bool" where
  "emits P m = (\<forall>w. \<exists>evs. calls (snd (m w)) = calls w @ evs \<and> list_all P evs)"

fun is_execute :: "event \<Rightarrow> bool" where
  "is_execute (Execute sql r) = True"
| "is_execute _ = False"

fun is_run :: "event \<Rightarrow> bool" where
  "is_run (Run command r) = True"
| "is_run _ = False"

fun is_count_query :: "event \<Rightarrow> bool" where
  "is_count_query (Query sql r) = (sql \<in> set (map count_sql tables))"
| "is_count_query _ = False"

fun is_create_account :: "event \<Rightarrow> bool" where
  "is_create_account (CreateAccount owner f r) = True"
| "is_create_account _ = False"

fun is_insert :: "event \<Rightarrow> bool" where
  "is_insert (CreateUser f r) = True"
| "is_insert (CreateAccount owner f r) = True"
| "is_insert (AddPosition account s q r) = True"
| "is_insert _ = False"

fun is_user_call :: "event \<Rightarrow> bool" where
  "is_user_call (FindByClerkId key r) = True"
| "is_user_call (CreateUser f r) = True"
| "is_user_call _ = False"

fun is_account_call :: "event \<Rightarrow> bool" where
  "is_account_call (FindByUser key r) = True"
| "is_account_call (CreateAccount owner f r) = True"
| "is_account_call _ = False"

fun is_position_call :: "event \<Rightarrow> bool" where
  "is_position_call (FindByAccount account r) = True"
| "is_position_call (AddPosition account s q r) = True"
| "is_position_call _ = False"

text \<open>The calls of the model layer.\<close>

definition is_model_call :: "event \<Rightarrow> bool" where
  "is_model_call ev = (is_user_call ev \<or> is_account_call ev \<or> is_position_call ev)"

text \<open>\<open>AddPosition\<close> calls for one account.\<close>

fun adds_position_to :: "account_id \<Rightarrow> event \<Rightarrow> bool" where
  "adds_position_to first (AddPosition account s q r) = (account = first)"
| "adds_position_to first _ = False"

text \<open>A count query that returned a result the script can read: no row, or a first row
  with a \<open>count\<close> column.\<close>

fun returned_count :: "event \<Rightarrow> bool" where
  "returned_count (Query sql (Inr [])) = True"
| "returned_count (Query sql (Inr (r # rest))) = (map_of r ''count'' \<noteq> None)"
| "returned_count _ = False"

subsection \<open>A store for the model layer\<close>

text \<open>
  Modelled from the spec: the \<open>Database\<close> model layer (\<open>src.models\<close>) is not part of the
  sources.  Section 3 of the specification gives three tables: identities with a unique
  natural key, accounts that belong to an identity, positions that belong to an account;
  an owner and an account must reference rows that already exist.  Rows are kept in
  insertion order and a lookup returns the matching rows in that order.
\<close>

record store =
  users_table :: "user_fields list"
  accounts_table :: "account_row list"
  positions_table :: "position_fields list"

definition empty_store :: store where
  "empty_store = \<lparr>users_table = [], accounts_table = [], positions_table = []\<rparr>"

text \<open>Modelled from the spec: lookup of an identity by its natural key.\<close>

definition store_find_by_clerk_id :: "string \<Rightarrow> store \<Rightarrow> user_fields option outcome \<times> store" where
  "store_find_by_clerk_id key s = (Inr (find (\<lambda>u. clerk_user_id u = key) (users_table s)), s)"

text \<open>Modelled from the spec: an identity is inserted unless its natural key is taken.\<close>

definition store_create_user :: "user_fields \<Rightarrow> store \<Rightarrow> unit outcome \<times> store" where
  "store_create_user u s =
     (if clerk_user_id u \<in> set (map clerk_user_id (users_table s))
      then (Inl ''duplicate key'', s)
      else (Inr (), s\<lparr>users_table := users_table s @ [u]\<rparr>))"

text \<open>Modelled from the spec: the accounts that belong to an identity.\<close>

definition store_find_by_user :: "string \<Rightarrow> store \<Rightarrow> account_row list outcome \<times> store" where
  "store_find_by_user key s = (Inr (filter (\<lambda>a. acc_owner a = key) (accounts_table s)), s)"

text \<open>Modelled from the spec: a generated identifier is one that no account has yet.\<close>

definition fresh_account_id :: "store \<Rightarrow> account_id" where
  "fresh_account_id s = Suc (fold max (map acc_id (accounts_table s)) 0)"

text \<open>Modelled from the spec: an account is inserted for an existing owner and its
  generated identifier is returned.\<close>

definition store_create_account ::
  "string \<Rightarrow> account_fields \<Rightarrow> store \<Rightarrow> account_id outcome \<times> store" where
  "store_create_account key f s =
     (if key \<notin> set (map clerk_user_id (users_table s))
      then (Inl ''foreign key violation'', s)
      else (Inr (fresh_account_id s),
            s\<lparr>accounts_table := accounts_table s @
               [\<lparr>account_name = account_name f, account_purpose = account_purpose f,
                 cash_balance = cash_balance f, cash_interest = cash_interest f,
                 acc_id = fresh_account_id s, acc_owner = key\<rparr>]\<rparr>))"

text \<open>Modelled from the spec: the positions that belong to an account.\<close>

definition store_find_by_account ::
  "account_id \<Rightarrow> store \<Rightarrow> position_fields list outcome \<times> store" where
  "store_find_by_account i s = (Inr (filter (\<lambda>p. account_id p = i) (positions_table s)), s)"

text \<open>Modelled from the spec: a position is inserted for an existing account.\<close>

definition store_add_position ::
  "account_id \<Rightarrow> string \<Rightarrow> decimal \<Rightarrow> store \<Rightarrow> unit outcome \<times> store" where
  "store_add_position i sy qty s =
     (if i \<notin> set (map acc_id (accounts_table s))
      then (Inl ''foreign key violation'', s)
      else (Inr (),
            s\<lparr>positions_table := positions_table s @
               [\<lparr>account_id = i, symbol = sy, quantity = qty\<rparr>]\<rparr>))"

definition store_models :: "store Database" where
  "store_models =
     \<lparr>find_by_clerk_id = store_find_by_clerk_id,
      create_user = store_create_user,
      find_by_user = store_find_by_user,
      create_account = store_create_account,
      find_by_account = store_find_by_account,
      add_position = store_add_position\<rparr>"

text \<open>
  Modelled from the spec: the schemas (\<open>src.schemas\<close>) are not part of the sources.
  Section 3 declares a target income of at least 0, a cash balance of at least 0, an
  interest rate in [0,1] and a quantity above 0; section 4.4 declares an integer range
  for the years without giving its bounds, which are parameters here.
\<close>

definition spec_schemas :: "int \<Rightarrow> int \<Rightarrow> schemas" where
  "spec_schemas lo hi =
     \<lparr>UserCreate = (\<lambda>u.
        if years_until_retirement u < lo \<or> hi < years_until_retirement u
        then Some ''years_until_retirement out of range''
        else if target_retirement_income u < 0 then Some ''target_retirement_income below 0''
        else None),
      AccountCreate = (\<lambda>a.
        if cash_balance a < 0 then Some ''cash_balance below 0''
        else if cash_interest a < 0 \<or> 1 < cash_interest a then Some ''cash_interest outside [0,1]''
        else None),
      PositionCreate = (\<lambda>p.
        if quantity p \<le> 0 then Some ''quantity not above 0'' else None)\<rparr>"

subsection \<open>Stand-ins for the other collaborators\<close>

text \<open>
  Concrete collaborators on which the theorems below are run.  The client fails on the
  statements it is told to fail on and otherwise leaves the store alone; a count query
  answers with the length of the table when the store has it and with 0 otherwise.  The
  subprocess stand-in returns one fixed result for the migration command and one for
  every other command.
\<close>

definition stub_count :: "string \<Rightarrow> store \<Rightarrow> int" where
  "stub_count sql s =
     (if sql = count_sql ''users'' then int (length (users_table s))
      else if sql = count_sql ''accounts'' then int (length (accounts_table s))
      else if sql = count_sql ''positions'' then int (length (positions_table s))
      else 0)"

definition stub_client :: "string list \<Rightarrow> store DataAPIClient" where
  "stub_client failing =
     \<lparr>execute = (\<lambda>sql s. if sql \<in> set failing then (Inl ''error'', s) else (Inr (), s)),
      query = (\<lambda>sql s.
        if sql \<in> set failing then (Inl ''error'', s)
        else (Inr [[(''count'', stub_count sql s)]], s))\<rparr>"

definition stub_env :: "string list \<Rightarrow> completed \<Rightarrow> completed \<Rightarrow> store env" where
  "stub_env failing migration seed =
     \<lparr>client = stub_client failing,
      models = store_models,
      schema = spec_schemas 0 100,
      subprocess_run = (\<lambda>command s.
        if command = migrations_command then (Inr migration, s) else (Inr seed, s))\<rparr>"

definition start :: "store world" where
  "start = \<lparr>db = empty_store, out = [], calls = []\<rparr>"

text \<open>A store in which the test user exists and owns no account, and one in which the
  user owns exactly one of the three accounts, as after a run that was cut short.\<close>

definition user_only :: "store world" where
  "user_only =
     \<lparr>db = \<lparr>users_table = [user_data], accounts_table = [], positions_table = []\<rparr>,
      out = [], calls = []\<rparr>"

definition roth_ira :: account_row where
  "roth_ira =
     \<lparr>account_name = ''Roth IRA'', account_purpose = ''Tax-free retirement savings'',
      cash_balance = 1000, cash_interest = 4 / 100, acc_id = 7,
      acc_owner = ''test_user_001''\<rparr>"

definition one_account :: "store world" where
  "one_account =
     \<lparr>db = \<lparr>users_table = [user_data], accounts_table = [roth_ira], positions_table = []\<rparr>,
      out = [], calls = []\<rparr>"

text \<open>A subprocess that succeeded without the sentinel in its output, and one that
  failed.\<close>

definition succeeded :: completed where
  "succeeded = \<lparr>returncode = 0, stdout = ''done'', stderr = []\<rparr>"

definition failed :: completed where
  "failed = \<lparr>returncode = 1, stdout = [], stderr = ''connection refused''\<rparr>"

section \<open>Proofs\<close>

subsection \<open>Running statements\<close>

declare block.simps [simp del] for_each.simps [simp del]

lemma return_apply: "return x w = (Inr x, w)"
  by (simp add: return_def)

lemma raise_apply: "raise e w = (Inl e, w)"
  by (simp add: raise_def)

lemma sys_exit_apply: "sys_exit n w = (Inl (SystemExit n), w)"
  by (simp add: sys_exit_def raise_def)

lemma print_apply: "print l w = (Inr (), w\<lparr>out := out w @ [l]\<rparr>)"
  by (simp add: print_def)

lemma bind_apply:
  "bind m f w = (case m w of (Inl e, w') \<Rightarrow> (Inl e, w') | (Inr x, w') \<Rightarrow> f x w')"
  by (simp add: bind_def)

lemma block_Nil_apply: "block [] w = (Inr (), w)"
  by (simp add: block.simps return_def)

lemma block_Cons_apply:
  "block (m # ms) w = (case m w of (Inl e, w') \<Rightarrow> (Inl e, w') | (Inr _, w') \<Rightarrow> block ms w')"
  by (simp add: block.simps bind_def)

lemma for_each_Nil_apply: "for_each body [] w = (Inr (), w)"
  by (simp add: for_each.simps return_def)

lemma for_each_Cons_apply:
  "for_each body (x # xs) w =
     (case body x w of (Inl e, w') \<Rightarrow> (Inl e, w') | (Inr _, w') \<Rightarrow> for_each body xs w')"
  by (simp add: for_each.simps bind_def)

lemma call_apply:
  "call ev f w =
     (case fst (f (db w)) of Inl e \<Rightarrow> Inl (Exception e) | Inr x \<Rightarrow> Inr x,
      w\<lparr>db := snd (f (db w)), calls := calls w @ [ev (fst (f (db w)))]\<rparr>)"
  by (simp add: call_def split: prod.splits)

lemma construct_apply:
  "construct check x w =
     (case check x of None \<Rightarrow> (Inr x, w) | Some e \<Rightarrow> (Inl (Exception e), w))"
  by (simp add: construct_def return_def raise_def split: option.splits)

lemmas prog_apply =
  return_apply raise_apply sys_exit_apply print_apply bind_apply block_Nil_apply
  block_Cons_apply for_each_Nil_apply for_each_Cons_apply

text \<open>A guarded statement of \<open>drop_all_tables\<close> never raises: it prints one of two lines.\<close>

lemma guarded_execute:
  "try_except (block [call (Execute sql) (execute c sql), print ok]) (\<lambda>e. print (err e)) w =
     (Inr (),
      w\<lparr>db := snd (execute c sql (db w)),
        out := out w @ [case fst (execute c sql (db w)) of Inl e \<Rightarrow> err e | Inr _ \<Rightarrow> ok],
        calls := calls w @ [Execute sql (fst (execute c sql (db w)))]\<rparr>)"
  by (cases "execute c sql (db w)")
     (auto simp: try_except_def call_def prog_apply split: sum.splits)

subsection \<open>The calls a statement can make\<close>

lemma emitsI:
  "(\<And>w. \<exists>evs. calls (snd (m w)) = calls w @ evs \<and> list_all P evs) \<Longrightarrow> emits P m"
  by (simp add: emits_def)

lemma emitsD: "emits P m \<Longrightarrow> \<exists>evs. calls (snd (m w)) = calls w @ evs \<and> list_all P evs"
  by (simp add: emits_def)

lemma emitsE:
  assumes "emits P m" and "m w = (r, w')"
  obtains evs where "calls w' = calls w @ evs" and "list_all P evs"
  using emitsD [OF assms(1), of w] assms(2) by auto

lemma emits_mono: "emits P m \<Longrightarrow> (\<And>ev. P ev \<Longrightarrow> Q ev) \<Longrightarrow> emits Q m"
  unfolding emits_def list_all_iff by metis

lemma emits_return: "emits P (return x)"
  by (simp add: emits_def return_def)

lemma emits_raise: "emits P (raise e)"
  by (simp add: emits_def raise_def)

lemma emits_sys_exit: "emits P (sys_exit n)"
  by (simp add: sys_exit_def emits_raise)

lemma emits_print: "emits P (print l)"
  by (simp add: emits_def print_def)

lemma emits_construct: "emits P (construct check x)"
  by (simp add: construct_def emits_return emits_raise split: option.splits)

lemma emits_call: "(\<And>r. P (ev r)) \<Longrightarrow> emits P (call ev f)"
  by (simp add: emits_def call_apply)

lemma emits_bind:
  assumes m: "emits P m" and f: "\<And>x. emits P (f x)"
  shows "emits P (bind m f)"
proof (rule emitsI)
  fix w
  obtain r w1 where mw: "m w = (r, w1)" by (cases "m w")
  from emitsD [OF m, of w] mw obtain evs1
    where e1: "calls w1 = calls w @ evs1" "list_all P evs1" by auto
  show "\<exists>evs. calls (snd (bind m f w)) = calls w @ evs \<and> list_all P evs"
  proof (cases r)
    case (Inl e)
    with mw e1 show ?thesis by (simp add: bind_apply)
  next
    case (Inr x)
    from emitsD [OF f, of x w1] obtain evs2
      where e2: "calls (snd (f x w1)) = calls w1 @ evs2" "list_all P evs2" by auto
    with Inr mw e1 have "calls (snd (bind m f w)) = calls w @ (evs1 @ evs2) \<and> list_all P (evs1 @ evs2)"
      by (simp add: bind_apply)
    then show ?thesis by blast
  qed
qed

lemma emits_try_except:
  assumes m: "emits P m" and h: "\<And>e. emits P (h e)"
  shows "emits P (try_except m h)"
proof (rule emitsI)
  fix w
  obtain r w1 where mw: "m w = (r, w1)" by (cases "m w")
  from emitsD [OF m, of w] mw obtain evs1
    where e1: "calls w1 = calls w @ evs1" "list_all P evs1" by auto
  show "\<exists>evs. calls (snd (try_except m h w)) = calls w @ evs \<and> list_all P evs"
  proof (cases "\<exists>e. r = Inl (Exception e)")
    case True
    then obtain e where r: "r = Inl (Exception e)" by blast
    from emitsD [OF h, of e w1] obtain evs2
      where e2: "calls (snd (h e w1)) = calls w1 @ evs2" "list_all P evs2" by auto
    with r mw e1 have "calls (snd (try_except m h w)) = calls w @ (evs1 @ evs2) \<and> list_all P (evs1 @ evs2)"
      by (simp add: try_except_def)
    then show ?thesis by blast
  next
    case False
    with mw have "try_except m h w = (r, w1)"
      by (auto simp: try_except_def split: sum.splits exn.splits)
    with e1 show ?thesis by auto
  qed
qed

lemma emits_if: "emits P a \<Longrightarrow> emits P b \<Longrightarrow> emits P (if c then a else b)"
  by simp

lemma emits_block: "(\<And>m. m \<in> set ms \<Longrightarrow> emits P m) \<Longrightarrow> emits P (block ms)"
  by (induction ms) (simp_all add: block.simps emits_return emits_bind)

lemma emits_for_each:
  "(\<And>x. x \<in> set xs \<Longrightarrow> emits P (body x)) \<Longrightarrow> emits P (for_each body xs)"
  by (induction xs) (simp_all add: for_each.simps emits_return emits_bind)

lemmas emits_intros =
  emits_return emits_raise emits_sys_exit emits_print emits_construct emits_call emits_bind
  emits_try_except emits_if emits_for_each

lemma emits_create_accounts: "emits is_create_account (create_accounts dbm as ids)"
  by (induction as arbitrary: ids) (auto intro!: emits_intros)

lemma emits_user_step: "emits is_user_call (user_step sch dbm)"
  unfolding user_step_def by (auto intro!: emits_intros emits_block)

lemma emits_account_step: "emits is_account_call (account_step sch dbm)"
  unfolding account_step_def
  by (auto intro!: emits_intros emits_mono [OF emits_create_accounts] elim: is_create_account.elims)

lemma emits_add_positions: "emits (adds_position_to i) (add_positions sch dbm i ps)"
  unfolding add_positions_def
proof (rule emits_for_each)
  fix x :: "string \<times> decimal"
  obtain s q where x: "x = (s, q)" by (cases x)
  show "emits (adds_position_to i)
     (case x of (s, q) \<Rightarrow>
        bind (construct (PositionCreate sch)
                 \<lparr>account_id = i, symbol = s, quantity = q\<rparr>)
           (\<lambda>validated.
         block [
           call (AddPosition (position_fields.account_id validated)
                   (position_fields.symbol validated) (position_fields.quantity validated))
             (add_position dbm (position_fields.account_id validated)
                (position_fields.symbol validated) (position_fields.quantity validated)),
           print (Added_position q s)]))"
    unfolding x
    by (auto simp: emits_def prog_apply construct_apply call_apply split: option.splits sum.splits)
qed

lemma emits_position_step: "emits is_position_call (position_step sch dbm ids)"
  unfolding position_step_def Let_def
  by (auto intro!: emits_intros emits_mono [OF emits_add_positions] elim: adds_position_to.elims)

lemma emits_create_test_data: "emits is_model_call (create_test_data sch dbm)"
  unfolding create_test_data_def
  by (auto intro!: emits_block emits_print emits_bind
        emits_mono [OF emits_user_step] emits_mono [OF emits_account_step]
        emits_mono [OF emits_position_step] simp: is_model_call_def)

lemma emits_final_verification: "emits is_count_query (final_verification c)"
  unfolding final_verification_def count_records_def
  by (auto intro!: emits_block emits_intros split: list.splits option.splits)

subsection \<open>The fixture provisioner over any model layer\<close>

lemma create_accounts_length:
  "create_accounts dbm as ids w = (Inr ids', w') \<Longrightarrow> length ids' = length ids + length as"
proof (induction as arbitrary: ids w)
  case Nil
  then show ?case by (simp add: return_apply)
next
  case (Cons a as)
  then show ?case
    by (auto simp: prog_apply call_apply split: sum.splits prod.splits)
qed

lemma position_step_lookup:
  "ids \<noteq> [] \<Longrightarrow> \<exists>found evs.
     calls (snd (position_step sch dbm ids w)) = calls w @ FindByAccount (hd ids) found # evs \<and>
     list_all (adds_position_to (hd ids)) evs \<and> (evs \<noteq> [] \<longrightarrow> found = Inr [])"
proof -
  assume ids: "ids \<noteq> []"
  define w1 where "w1 = snd (call (FindByAccount (hd ids)) (find_by_account dbm (hd ids)) w)"
  define found where "found = fst (find_by_account dbm (hd ids) (db w))"
  have c1: "calls w1 = calls w @ [FindByAccount (hd ids) found]"
    by (simp add: w1_def found_def call_apply)
  show ?thesis
  proof (cases "found = Inr []")
    case True
    from True have "position_step sch dbm ids w = add_positions sch dbm (hd ids) positions w1"
      using ids by (simp add: position_step_def Let_def bind_apply call_apply w1_def found_def)
    moreover from emitsD [OF emits_add_positions, where w = w1 and i1 = "hd ids"]
    obtain evs where "calls (snd (add_positions sch dbm (hd ids) positions w1)) = calls w1 @ evs"
      "list_all (adds_position_to (hd ids)) evs"
      by blast
    ultimately show ?thesis using c1 True by auto
  next
    case False
    then have "calls (snd (position_step sch dbm ids w)) = calls w1"
      using ids
      by (cases found; cases "projr found")
         (auto simp: position_step_def Let_def prog_apply call_apply w1_def found_def)
    with c1 show ?thesis by auto
  qed
qed


lemma create_account_is_account_call: "is_create_account ev \<Longrightarrow> is_account_call ev"
  by (cases ev) auto

lemma user_call_not_create_account: "is_user_call ev \<Longrightarrow> \<not> is_create_account ev"
  by (cases ev) auto

lemma position_call_not_create_account: "is_position_call ev \<Longrightarrow> \<not> is_create_account ev"
  by (cases ev) auto

lemma construct_world: "construct check x w = (r, w') \<Longrightarrow> w' = w"
  by (auto simp: construct_apply split: option.splits)

lemma validation_world:
  "for_each (\<lambda>a. bind (construct check a) (\<lambda>_. return ())) xs w = (r, w') \<Longrightarrow> w' = w"
  by (induction xs arbitrary: r)
     (auto simp: prog_apply construct_apply split: option.splits prod.splits sum.splits)

lemma account_step_existence_only:
  assumes "account_step sch dbm w = (r, w')"
  shows "\<exists>evs. calls w' = calls w @ evs \<and> list_all is_account_call evs \<and>
           (\<forall>user_accounts. user_accounts \<noteq> [] \<and> FindByUser test_user (Inr user_accounts) \<in> set evs
              \<longrightarrow> \<not> list_ex is_create_account evs)"
proof -
  let ?validate = "for_each (\<lambda>a. bind (construct (AccountCreate sch) a) (\<lambda>_. return ())) accounts"
  obtain r0 w0 where v: "?validate w = (r0, w0)" by (cases "?validate w")
  then have w0: "w0 = w" by (rule validation_world)
  define found where "found = fst (find_by_user dbm test_user (db w))"
  define w1 where "w1 = snd (call (FindByUser test_user) (find_by_user dbm test_user) w)"
  have c1: "calls w1 = calls w @ [FindByUser test_user found]"
    by (simp add: w1_def found_def call_apply)
  show ?thesis
  proof (cases r0)
    case (Inl e)
    with v w0 assms have "w' = w" by (simp add: account_step_def bind_apply)
    then show ?thesis by simp
  next
    case (Inr u)
    show ?thesis
    proof (cases "found = Inr []")
      case True
      with Inr v w0 assms have run: "create_accounts dbm accounts [] w1 = (r, w')"
        by (simp add: account_step_def bind_apply call_apply w1_def found_def)
      from emitsE [OF emits_create_accounts run] obtain evs
        where evs: "calls w' = calls w1 @ evs" "list_all is_create_account evs" by blast
      have "FindByUser test_user (Inr ua) \<notin> set evs" for ua
        using evs(2) by (auto simp: list_all_iff)
      moreover have "list_all is_account_call evs"
        using evs(2) by (auto simp: list_all_iff create_account_is_account_call)
      ultimately show ?thesis using evs(1) c1 True by auto
    next
      case False
      with Inr v w0 assms have "calls w' = calls w1"
        by (cases found; cases "projr found")
           (auto simp: account_step_def prog_apply call_apply w1_def found_def)
      with c1 False show ?thesis by (auto simp: list_ex_iff)
    qed
  qed
qed

lemma account_step_nonempty:
  assumes "account_step sch dbm w = (Inr account_ids, w')"
  shows "account_ids \<noteq> []"
  using assms
  by (auto simp: account_step_def prog_apply call_apply accounts_def
        split: sum.splits prod.splits if_splits dest!: create_accounts_length)

subsection \<open>Schema teardown\<close>

text \<open>
  C4.  Whatever the client does and whichever drops fail, \<open>drop_all_tables\<close> returns
  normally (it never raises to its caller) after issuing exactly six statements: the
  cascading drops of positions, accounts, jobs, instruments and users, in this order,
  and then the drop of the function \<open>update_updated_at_column\<close>.  Each statement is reported
  on its own line, as dropped when it returned and as an error, with its message, when
  it raised.
\<close>

theorem drop_all_tables_sequence:
  "\<exists>r1 r2 r3 r4 r5 r6 d'.
     drop_all_tables c w =
       (Inr (),
        w\<lparr>db := d',
          out := out w @
            [Dropping_tables, report_table ''positions'' r1, report_table ''accounts'' r2,
             report_table ''jobs'' r3, report_table ''instruments'' r4,
             report_table ''users'' r5, report_function r6],
          calls := calls w @
            [Execute ''DROP TABLE IF EXISTS positions CASCADE'' r1,
             Execute ''DROP TABLE IF EXISTS accounts CASCADE'' r2,
             Execute ''DROP TABLE IF EXISTS jobs CASCADE'' r3,
             Execute ''DROP TABLE IF EXISTS instruments CASCADE'' r4,
             Execute ''DROP TABLE IF EXISTS users CASCADE'' r5,
             Execute ''DROP FUNCTION IF EXISTS update_updated_at_column() CASCADE'' r6]\<rparr>)"
proof -
  define x1 where "x1 = execute c (drop_table_sql ''positions'') (db w)"
  define x2 where "x2 = execute c (drop_table_sql ''accounts'') (snd x1)"
  define x3 where "x3 = execute c (drop_table_sql ''jobs'') (snd x2)"
  define x4 where "x4 = execute c (drop_table_sql ''instruments'') (snd x3)"
  define x5 where "x5 = execute c (drop_table_sql ''users'') (snd x4)"
  define x6 where "x6 = execute c drop_function_sql (snd x5)"
  have "drop_all_tables c w =
       (Inr (),
        w\<lparr>db := snd x6,
          out := out w @
            [Dropping_tables, report_table ''positions'' (fst x1),
             report_table ''accounts'' (fst x2), report_table ''jobs'' (fst x3),
             report_table ''instruments'' (fst x4), report_table ''users'' (fst x5),
             report_function (fst x6)],
          calls := calls w @
            [Execute (drop_table_sql ''positions'') (fst x1),
             Execute (drop_table_sql ''accounts'') (fst x2),
             Execute (drop_table_sql ''jobs'') (fst x3),
             Execute (drop_table_sql ''instruments'') (fst x4),
             Execute (drop_table_sql ''users'') (fst x5),
             Execute drop_function_sql (fst x6)]\<rparr>)"
    unfolding drop_all_tables_def tables_to_drop_def x1_def x2_def x3_def x4_def x5_def x6_def
    by (simp add: prog_apply guarded_execute report_table_def report_function_def)
  then show ?thesis
    unfolding drop_table_sql_def drop_function_sql_def
    by simp (intro exI, rule refl)
qed

text \<open>The teardown on a client whose drop of \<open>jobs\<close> fails: the failure is logged and the
  remaining drops are still issued.\<close>

theorem drop_all_tables_sequence_witness:
  "drop_all_tables (stub_client [drop_table_sql ''jobs'']) start =
     (Inr (),
      \<lparr>db = empty_store,
       out = [Dropping_tables, Dropped ''positions'', Dropped ''accounts'',
              Error_dropping ''jobs'' ''error'', Dropped ''instruments'', Dropped ''users'',
              Dropped_function],
       calls =
         [Execute ''DROP TABLE IF EXISTS positions CASCADE'' (Inr ()),
          Execute ''DROP TABLE IF EXISTS accounts CASCADE'' (Inr ()),
          Execute ''DROP TABLE IF EXISTS jobs CASCADE'' (Inl ''error''),
          Execute ''DROP TABLE IF EXISTS instruments CASCADE'' (Inr ()),
          Execute ''DROP TABLE IF EXISTS users CASCADE'' (Inr ()),
          Execute ''DROP FUNCTION IF EXISTS update_updated_at_column() CASCADE'' (Inr ())]\<rparr>)"
  using drop_all_tables_sequence [of "stub_client [drop_table_sql ''jobs'']" start]
  by (simp add: drop_all_tables_def tables_to_drop_def prog_apply guarded_execute)
     (simp add: stub_client_def start_def drop_table_sql_def drop_function_sql_def)

subsection \<open>The fixture provisioner over any model layer: the claims\<close>

lemmas store_ops =
  store_models_def store_find_by_clerk_id_def store_create_user_def store_find_by_user_def
  store_create_account_def store_find_by_account_def store_add_position_def

lemmas fixture_eval =
  create_test_data_def user_step_def account_step_def position_step_def add_positions_def
  prog_apply call_apply construct_apply store_ops fresh_account_id_def
  user_data_def accounts_def positions_def test_user_def empty_store_def Let_def

lemmas stand_ins =
  spec_schemas_def start_def user_only_def one_account_def roth_ira_def

text \<open>
  C10.  Whenever the account step returns without raising, the list of account
  identifiers it returns is not empty, so the guard of the position step holds: the
  next call of the provisioner is the lookup of the positions of the first identifier.
\<close>

theorem account_ids_never_empty:
  assumes "account_step sch dbm w = (Inr account_ids, w')"
  shows "account_ids \<noteq> [] \<and>
         (\<exists>found evs. calls (snd (position_step sch dbm account_ids w')) =
             calls w' @ FindByAccount (hd account_ids) found # evs)"
proof -
  from assms have "account_ids \<noteq> []" by (rule account_step_nonempty)
  with position_step_lookup [of account_ids sch dbm w'] show ?thesis by blast
qed

theorem account_ids_never_empty_witness:
  "fst (account_step (spec_schemas 0 100) store_models user_only) = Inr [1, 2, 3] \<and>
   [1, 2, 3] \<noteq> ([] :: account_id list) \<and>
   (\<exists>found evs.
      calls (snd (position_step (spec_schemas 0 100) store_models [1, 2, 3]
                   (snd (account_step (spec_schemas 0 100) store_models user_only)))) =
        calls (snd (account_step (spec_schemas 0 100) store_models user_only)) @
        FindByAccount (hd [1, 2, 3]) found # evs)"
proof -
  have 1: "fst (account_step (spec_schemas 0 100) store_models user_only) = Inr [1, 2, 3]"
    by (simp add: fixture_eval stand_ins)
  then have h: "account_step (spec_schemas 0 100) store_models user_only =
      (Inr [1, 2, 3], snd (account_step (spec_schemas 0 100) store_models user_only))"
    by (simp add: prod_eq_iff)
  from 1 account_ids_never_empty [OF h] show ?thesis by blast
qed

text \<open>
  C9.  Let the account step return the list \<open>account_ids\<close>, whether it found the accounts
  or created them.  Then the position step first looks up the positions of the first
  identifier of that list; every position it inserts afterwards is inserted for that
  identifier; and it inserts positions only when the lookup returned no position.
\<close>

theorem positions_only_for_first_account:
  assumes "account_step sch dbm w = (Inr account_ids, w1)"
    and "position_step sch dbm account_ids w1 = (r, w2)"
  shows "\<exists>found adds.
           calls w2 = calls w1 @ FindByAccount (hd account_ids) found # adds \<and>
           list_all (adds_position_to (hd account_ids)) adds \<and>
           (adds \<noteq> [] \<longrightarrow> found = Inr [])"
proof -
  from assms(1) have "account_ids \<noteq> []" by (rule account_step_nonempty)
  from position_step_lookup [OF this, of sch dbm w1] assms(2) show ?thesis by simp
qed

theorem positions_only_for_first_account_witness:
  "fst (account_step (spec_schemas 0 100) store_models one_account) = Inr [7] \<and>
   calls (snd (position_step (spec_schemas 0 100) store_models [7]
                (snd (account_step (spec_schemas 0 100) store_models one_account)))) =
     [FindByUser ''test_user_001'' (Inr [roth_ira]),
      FindByAccount 7 (Inr []),
      AddPosition 7 ''SPY'' 100 (Inr ()), AddPosition 7 ''QQQ'' 50 (Inr ()),
      AddPosition 7 ''BND'' 200 (Inr ()), AddPosition 7 ''VEA'' 150 (Inr ()),
      AddPosition 7 ''GLD'' 25 (Inr ())]"
proof -
  let ?w1 = "snd (account_step (spec_schemas 0 100) store_models one_account)"
  have 1: "fst (account_step (spec_schemas 0 100) store_models one_account) = Inr [7]"
    by (simp add: fixture_eval stand_ins)
  then have h1: "account_step (spec_schemas 0 100) store_models one_account = (Inr [7], ?w1)"
    by (simp add: prod_eq_iff)
  have h2: "position_step (spec_schemas 0 100) store_models [7] ?w1 =
      (fst (position_step (spec_schemas 0 100) store_models [7] ?w1),
       snd (position_step (spec_schemas 0 100) store_models [7] ?w1))"
    by simp
  from 1 positions_only_for_first_account [OF h1 h2] show ?thesis
    by (simp add: fixture_eval stand_ins)
qed

text \<open>
  C3.  The account check only asks whether the user has any account.  In every run of
  the provisioner, for every model layer and store: when the lookup of the user's
  accounts returns a list that is not empty (one account is enough), the run makes no
  call that creates an account, so none of the three predefined accounts is created.
\<close>

theorem existing_account_blocks_creation:
  assumes "create_test_data sch dbm w = (r, w')"
  shows "\<exists>evs. calls w' = calls w @ evs \<and>
           (\<forall>user_accounts. user_accounts \<noteq> [] \<and> FindByUser test_user (Inr user_accounts) \<in> set evs
              \<longrightarrow> \<not> list_ex is_create_account evs)"
proof -
  define w0 where "w0 = w\<lparr>out := out w @ [Creating_test_user]\<rparr>"
  obtain r1 w1 where u: "user_step sch dbm w0 = (r1, w1)" by (cases "user_step sch dbm w0")
  from emitsE [OF emits_user_step u] obtain evs1
    where e1: "calls w1 = calls w @ evs1" "list_all is_user_call evs1" by (auto simp: w0_def)
  have n1: "FindByUser k x \<notin> set evs1" "\<not> list_ex is_create_account evs1" for k x
    using e1(2) by (auto simp: list_all_iff list_ex_iff dest: user_call_not_create_account)
  show ?thesis
  proof (cases r1)
    case (Inl e)
    with u assms have "w' = w1" by (simp add: create_test_data_def prog_apply w0_def)
    with e1 n1 show ?thesis by auto
  next
    case (Inr x1)
    obtain r2 w2 where a: "account_step sch dbm w1 = (r2, w2)" by (cases "account_step sch dbm w1")
    from account_step_existence_only [OF a] obtain evs2
      where e2: "calls w2 = calls w1 @ evs2"
        "\<forall>ua. ua \<noteq> [] \<and> FindByUser test_user (Inr ua) \<in> set evs2 \<longrightarrow> \<not> list_ex is_create_account evs2"
      by blast
    show ?thesis
    proof (cases r2)
      case (Inl e)
      with Inr u a assms have "w' = w2" by (simp add: create_test_data_def prog_apply w0_def)
      with e1 e2 n1 show ?thesis by auto
    next
      case ids: (Inr ids)
      with Inr u a assms have p: "position_step sch dbm ids w2 = (r, w')"
        by (simp add: create_test_data_def prog_apply w0_def split: prod.splits sum.splits)
      from emitsE [OF emits_position_step p] obtain evs3
        where e3: "calls w' = calls w2 @ evs3" "list_all is_position_call evs3" by blast
      have n3: "FindByUser k x \<notin> set evs3" "\<not> list_ex is_create_account evs3" for k x
        using e3(2) by (auto simp: list_all_iff list_ex_iff dest: position_call_not_create_account)
      from e1 e2 e3 n1 n3 show ?thesis by auto
    qed
  qed
qed

theorem existing_account_blocks_creation_witness:
  "FindByUser test_user (Inr [roth_ira]) \<in>
     set (calls (snd (create_test_data (spec_schemas 0 100) store_models one_account))) \<and>
   \<not> list_ex is_create_account
     (calls (snd (create_test_data (spec_schemas 0 100) store_models one_account))) \<and>
   accounts_table (db (snd (create_test_data (spec_schemas 0 100) store_models one_account))) =
     [roth_ira]"
  using existing_account_blocks_creation
    [of "spec_schemas 0 100" store_models one_account
        "fst (create_test_data (spec_schemas 0 100) store_models one_account)"
        "snd (create_test_data (spec_schemas 0 100) store_models one_account)"]
  by (simp add: fixture_eval stand_ins)

subsection \<open>The orchestrator\<close>

lemma emits_drop_all_tables: "emits is_execute (drop_all_tables c)"
  unfolding drop_all_tables_def by (auto intro!: emits_block emits_intros)

lemma emits_after_seed:
  "emits (\<lambda>ev. \<not> is_execute ev \<and> \<not> is_run ev) (after_seed e a)"
proof -
  have m: "\<not> is_execute ev \<and> \<not> is_run ev" if "is_model_call ev" for ev
    using that by (cases ev) (auto simp: is_model_call_def)
  have q: "\<not> is_execute ev \<and> \<not> is_run ev" if "is_count_query ev" for ev
    using that by (cases ev) auto
  have 1: "emits (\<lambda>ev. \<not> is_execute ev \<and> \<not> is_run ev) (create_test_data (schema e) (models e))"
    by (rule emits_mono [OF emits_create_test_data]) (rule m)
  have 2: "emits (\<lambda>ev. \<not> is_execute ev \<and> \<not> is_run ev) (final_verification (client e))"
    by (rule emits_mono [OF emits_final_verification]) (rule q)
  show ?thesis
    unfolding after_seed_def
    by (auto intro!: emits_block emits_return emits_print 1 2)
qed

lemma run_migrations_failure:
  assumes "subprocess_run e migrations_command (db w) = (Inr result, d')"
    and "returncode result \<noteq> 0"
  shows "run_migrations e w =
     (Inl (SystemExit 1),
      w\<lparr>db := d',
        out := out w @ [Running_migrations, Migration_failed, Printed (stderr result)],
        calls := calls w @ [Run migrations_command (Inr result)]\<rparr>)"
  using assms by (simp add: run_migrations_def prog_apply call_apply)

lemma load_seed_data_calls:
  "calls (snd (load_seed_data e w)) =
     calls w @ [Run seed_command (fst (subprocess_run e seed_command (db w)))]"
  by (cases "fst (subprocess_run e seed_command (db w))")
     (simp_all add: load_seed_data_def prog_apply call_apply)

lemma count_records_loop:
  assumes "for_each (count_records c) ts w = (r, w')"
  shows "\<exists>evs. calls w' = calls w @ evs \<and>
           (list_all returned_count evs \<longrightarrow> r = Inr ()) \<and>
           (\<forall>sql msg. Query sql (Inl msg) \<in> set evs \<longrightarrow> r = Inl (Exception msg))"
  using assms
proof (induction ts arbitrary: w)
  case Nil
  then show ?case by (simp add: prog_apply)
next
  case (Cons t ts)
  define found where "found = fst (query c (count_sql t) (db w))"
  obtain r1 w1 where b: "count_records c t w = (r1, w1)" by (cases "count_records c t w")
  have c1: "calls w1 = calls w @ [Query (count_sql t) found]"
    using b by (auto simp: count_records_def prog_apply call_apply found_def
        split: sum.splits list.splits option.splits)
  have r1: "r1 = (case found of Inl msg \<Rightarrow> Inl (Exception msg)
      | Inr [] \<Rightarrow> Inr ()
      | Inr (row # _) \<Rightarrow> (case map_of row ''count'' of Some n \<Rightarrow> Inr () | None \<Rightarrow> Inl (Exception ''KeyError'')))"
    using b by (auto simp: count_records_def prog_apply call_apply found_def
        split: sum.splits list.splits option.splits)
  show ?case
  proof (cases r1)
    case (Inl x)
    with b Cons.prems have "r = Inl x" "w' = w1" by (simp_all add: prog_apply)
    with c1 r1 Inl show ?thesis
      by (auto split: sum.splits list.splits option.splits)
  next
    case (Inr u)
    with b Cons.prems have "for_each (count_records c) ts w1 = (r, w')" by (simp add: prog_apply)
    from Cons.IH [OF this] obtain evs where
      e: "calls w' = calls w1 @ evs" "list_all returned_count evs \<longrightarrow> r = Inr ()"
         "\<forall>sql msg. Query sql (Inl msg) \<in> set evs \<longrightarrow> r = Inl (Exception msg)" by blast
    from r1 Inr have "\<forall>msg. found \<noteq> Inl msg"
      by (auto split: sum.splits)
    with e c1 show ?thesis by auto
  qed
qed

lemmas main_eval =
  main_def after_seed_def run_migrations_def load_seed_data_def drop_all_tables_def
  final_verification_def count_records_def tables_def tables_to_drop_def try_except_def
  prog_apply call_apply stub_env_def stub_client_def stub_count_def start_def
  succeeded_def failed_def migrations_command_def seed_command_def sentinel_def
  drop_table_sql_def drop_function_sql_def count_sql_def empty_store_def sublist_code(3)

text \<open>
  C5.  Fail-fast.  In a run without \<open>--skip-drop\<close>, let the migration subprocess, started
  in the world that the teardown leaves, return a completed process with a non-zero
  return code.  Then \<open>main\<close> prints the failure line and the captured stderr and raises
  \<open>SystemExit(1)\<close>, so the exit status is 1; and the calls of the whole run are the drops
  of the teardown followed by the migration subprocess, so the seed subprocess, the
  model layer and the count queries are never called.
\<close>

theorem migration_failure_fails_fast:
  assumes "\<not> skip_drop a"
    and "drop_all_tables (client e) (w\<lparr>out := out w @ [Banner, Rule]\<rparr>) = (Inr (), w1)"
    and "subprocess_run e migrations_command (db w1) = (Inr result, d')"
    and "returncode result \<noteq> 0"
  shows "\<exists>drops.
           main e a w =
             (Inl (SystemExit 1),
              w1\<lparr>db := d',
                 out := out w1 @ [Running_migrations, Migration_failed, Printed (stderr result)],
                 calls := calls w @ drops @ [Run migrations_command (Inr result)]\<rparr>) \<and>
           list_all is_execute drops \<and>
           exit_code (fst (main e a w)) = 1"
proof -
  from emitsE [OF emits_drop_all_tables assms(2)] obtain drops
    where d: "calls w1 = calls w @ drops" "list_all is_execute drops" by auto
  have "main e a w =
          (Inl (SystemExit 1),
           w1\<lparr>db := d',
              out := out w1 @ [Running_migrations, Migration_failed, Printed (stderr result)],
              calls := calls w1 @ [Run migrations_command (Inr result)]\<rparr>)"
    using assms(1,2) run_migrations_failure [OF assms(3,4)]
    by (simp add: main_def prog_apply)
  with d show ?thesis by (intro exI [of _ drops]) simp
qed

theorem migration_failure_fails_fast_witness:
  "main (stub_env [] failed succeeded) \<lparr>with_test_data = True, skip_drop = False\<rparr> start =
     (Inl (SystemExit 1),
      \<lparr>db = empty_store,
       out = [Banner, Rule, Dropping_tables, Dropped ''positions'', Dropped ''accounts'',
              Dropped ''jobs'', Dropped ''instruments'', Dropped ''users'', Dropped_function,
              Running_migrations, Migration_failed, Printed ''connection refused''],
       calls =
         [Execute ''DROP TABLE IF EXISTS positions CASCADE'' (Inr ()),
          Execute ''DROP TABLE IF EXISTS accounts CASCADE'' (Inr ()),
          Execute ''DROP TABLE IF EXISTS jobs CASCADE'' (Inr ()),
          Execute ''DROP TABLE IF EXISTS instruments CASCADE'' (Inr ()),
          Execute ''DROP TABLE IF EXISTS users CASCADE'' (Inr ()),
          Execute ''DROP FUNCTION IF EXISTS update_updated_at_column() CASCADE'' (Inr ()),
          Run [''uv'', ''run'', ''run_migrations.py''] (Inr failed)]\<rparr>) \<and>
   exit_code (fst (main (stub_env [] failed succeeded)
                     \<lparr>with_test_data = True, skip_drop = False\<rparr> start)) = 1"
proof -
  let ?e = "stub_env [] failed succeeded"
  let ?a = "\<lparr>with_test_data = True, skip_drop = False\<rparr>"
  let ?w1 = "snd (drop_all_tables (client ?e) (start\<lparr>out := out start @ [Banner, Rule]\<rparr>))"
  have h1: "\<not> skip_drop ?a" by simp
  have h2: "drop_all_tables (client ?e) (start\<lparr>out := out start @ [Banner, Rule]\<rparr>) = (Inr (), ?w1)"
    by (simp add: prod_eq_iff main_eval)
  have h3: "subprocess_run ?e migrations_command (db ?w1) = (Inr failed, db ?w1)"
    by (simp add: stub_env_def)
  have h4: "returncode failed \<noteq> 0" by (simp add: failed_def)
  from migration_failure_fails_fast [OF h1 h2 h3 h4] show ?thesis
    by (simp add: main_eval)
qed

text \<open>
  C6.  With \<open>--skip-drop\<close> the first call of the run is the seed subprocess, and no later
  call is a drop statement or a subprocess: neither the teardown nor the migration
  subprocess is invoked.
\<close>

theorem skip_drop_goes_to_seed:
  assumes "skip_drop a"
  shows "\<exists>r evs.
           calls (snd (main e a w)) = calls w @ Run seed_command r # evs \<and>
           list_all (\<lambda>ev. \<not> is_execute ev \<and> \<not> is_run ev) evs"
proof -
  define w0 where "w0 = w\<lparr>out := out w @ [Banner, Rule]\<rparr>"
  obtain r1 w1 where s: "load_seed_data e w0 = (r1, w1)" by (cases "load_seed_data e w0")
  from load_seed_data_calls [of e w0] s obtain r
    where c1: "calls w1 = calls w @ [Run seed_command r]" by (simp add: w0_def)
  show ?thesis
  proof (cases r1)
    case (Inl x)
    with assms s have "main e a w = (Inl x, w1)"
      by (simp add: main_def prog_apply w0_def)
    with c1 show ?thesis by simp
  next
    case (Inr u)
    with assms s have m: "main e a w = after_seed e a w1"
      by (simp add: main_def prog_apply w0_def split: prod.splits sum.splits)
    from emitsD [OF emits_after_seed, of e a w1] obtain evs
      where "calls (snd (after_seed e a w1)) = calls w1 @ evs"
        "list_all (\<lambda>ev. \<not> is_execute ev \<and> \<not> is_run ev) evs" by blast
    with m c1 show ?thesis by simp
  qed
qed

theorem skip_drop_goes_to_seed_witness:
  "skip_drop \<lparr>with_test_data = False, skip_drop = True\<rparr> \<and>
   main (stub_env [] failed succeeded) \<lparr>with_test_data = False, skip_drop = True\<rparr> start =
     (Inr (),
      \<lparr>db = empty_store,
       out = [Banner, Rule, Loading_seed_data, Seed_data_loaded, Final_verification,
              Count ''users'' 0, Count ''instruments'' 0, Count ''accounts'' 0,
              Count ''positions'' 0, Count ''jobs'' 0, Rule, Reset_complete],
       calls =
         [Run [''uv'', ''run'', ''seed_data.py''] (Inr succeeded),
          Query ''SELECT COUNT(*) as count FROM users'' (Inr [[(''count'', 0)]]),
          Query ''SELECT COUNT(*) as count FROM instruments'' (Inr [[(''count'', 0)]]),
          Query ''SELECT COUNT(*) as count FROM accounts'' (Inr [[(''count'', 0)]]),
          Query ''SELECT COUNT(*) as count FROM positions'' (Inr [[(''count'', 0)]]),
          Query ''SELECT COUNT(*) as count FROM jobs'' (Inr [[(''count'', 0)]])]\<rparr>)"
  using skip_drop_goes_to_seed
    [of "\<lparr>with_test_data = False, skip_drop = True\<rparr>" "stub_env [] failed succeeded" start]
  by (simp add: main_eval)

text \<open>
  C8.  When the seed subprocess returns with return code 0, the seed step returns
  normally whatever its captured output is: the sentinel only selects which of two
  summary lines is printed, and the steps after the seed step then run in a world that
  is the same but for that line.
\<close>

theorem missing_sentinel_is_not_an_error:
  assumes "subprocess_run e seed_command (db w) = (Inr result, d')"
    and "returncode result = 0"
  shows "load_seed_data e w =
     (Inr (),
      w\<lparr>db := d',
        out := out w @
          [Loading_seed_data,
           if sublist sentinel (stdout result) then Loaded_22_instruments else Seed_data_loaded],
        calls := calls w @ [Run seed_command (Inr result)]\<rparr>) \<and>
   block [load_seed_data e, after_seed e a] w =
     after_seed e a
       (w\<lparr>db := d',
          out := out w @
            [Loading_seed_data,
             if sublist sentinel (stdout result) then Loaded_22_instruments else Seed_data_loaded],
          calls := calls w @ [Run seed_command (Inr result)]\<rparr>)"
proof -
  have 1: "load_seed_data e w =
     (Inr (),
      w\<lparr>db := d',
        out := out w @
          [Loading_seed_data,
           if sublist sentinel (stdout result) then Loaded_22_instruments else Seed_data_loaded],
        calls := calls w @ [Run seed_command (Inr result)]\<rparr>)"
    using assms by (simp add: load_seed_data_def prog_apply call_apply)
  show ?thesis
    by (simp add: 1 block_Cons_apply block_Nil_apply split: prod.splits sum.splits)
qed

theorem missing_sentinel_is_not_an_error_witness:
  "\<not> sublist sentinel (stdout succeeded) \<and>
   load_seed_data (stub_env [] failed succeeded) start =
     (Inr (),
      \<lparr>db = empty_store,
       out = [Loading_seed_data, Seed_data_loaded],
       calls = [Run [''uv'', ''run'', ''seed_data.py''] (Inr succeeded)]\<rparr>)"
proof -
  let ?e = "stub_env [] failed succeeded"
  have h1: "subprocess_run ?e seed_command (db start) = (Inr succeeded, db start)"
    by (simp add: stub_env_def seed_command_def migrations_command_def)
  have h2: "returncode succeeded = 0" by (simp add: succeeded_def)
  from missing_sentinel_is_not_an_error [OF h1 h2] show ?thesis
    by (simp add: main_eval)
qed

text \<open>
  C7, as amended.  The verification step is read-only: every call it makes is a count
  query on one of the tracked tables.  A count of zero is a valid outcome: when every
  query it issued returned a result that can be read (no row, which is read as 0, or a
  first row with a \<open>count\<close> column, whatever the count), the step returns normally.  But
  a count query that raises is not caught: the step ends with that exception.
\<close>

theorem verification_reads_and_can_fail:
  assumes "final_verification c w = (r, w')"
  shows "\<exists>evs. calls w' = calls w @ evs \<and> list_all is_count_query evs \<and>
           (list_all returned_count evs \<longrightarrow> r = Inr ()) \<and>
           (\<forall>sql msg. Query sql (Inl msg) \<in> set evs \<longrightarrow> r = Inl (Exception msg))"
proof -
  from emitsE [OF emits_final_verification assms] obtain evs
    where e: "calls w' = calls w @ evs" "list_all is_count_query evs" by blast
  from assms have "for_each (count_records c) tables (w\<lparr>out := out w @ [Final_verification]\<rparr>) = (r, w')"
    by (simp add: final_verification_def prog_apply split: prod.splits sum.splits)
  from count_records_loop [OF this] e show ?thesis by auto
qed

theorem verification_reads_and_can_fail_witness:
  "final_verification (stub_client []) start =
     (Inr (),
      \<lparr>db = empty_store,
       out = [Final_verification, Count ''users'' 0, Count ''instruments'' 0,
              Count ''accounts'' 0, Count ''positions'' 0, Count ''jobs'' 0],
       calls =
         [Query ''SELECT COUNT(*) as count FROM users'' (Inr [[(''count'', 0)]]),
          Query ''SELECT COUNT(*) as count FROM instruments'' (Inr [[(''count'', 0)]]),
          Query ''SELECT COUNT(*) as count FROM accounts'' (Inr [[(''count'', 0)]]),
          Query ''SELECT COUNT(*) as count FROM positions'' (Inr [[(''count'', 0)]]),
          Query ''SELECT COUNT(*) as count FROM jobs'' (Inr [[(''count'', 0)]])]\<rparr>)"
  using verification_reads_and_can_fail
    [of "stub_client []" start "fst (final_verification (stub_client []) start)"
        "snd (final_verification (stub_client []) start)"]
  by (simp add: main_eval)

text \<open>
  The claim as stated says that the verification step cannot fail the run.  On a client
  whose count query on \<open>accounts\<close> raises, in a run in which everything else succeeds,
  \<open>main\<close> ends with that exception after two counts, the remaining tables are not
  counted, and the exit status is 1.
\<close>

theorem verification_failure_counterexample:
  "main (stub_env [count_sql ''accounts''] failed succeeded)
        \<lparr>with_test_data = False, skip_drop = True\<rparr> start =
     (Inl (Exception ''error''),
      \<lparr>db = empty_store,
       out = [Banner, Rule, Loading_seed_data, Seed_data_loaded, Final_verification,
              Count ''users'' 0, Count ''instruments'' 0],
       calls =
         [Run [''uv'', ''run'', ''seed_data.py''] (Inr succeeded),
          Query ''SELECT COUNT(*) as count FROM users'' (Inr [[(''count'', 0)]]),
          Query ''SELECT COUNT(*) as count FROM instruments'' (Inr [[(''count'', 0)]]),
          Query ''SELECT COUNT(*) as count FROM accounts'' (Inl ''error'')]\<rparr>) \<and>
   exit_code (fst (main (stub_env [count_sql ''accounts''] failed succeeded)
                     \<lparr>with_test_data = False, skip_drop = True\<rparr> start)) = 1"
  by (simp add: main_eval)

subsection \<open>The fixture provisioner on the store\<close>















end
